theory Spec2Isabelle
  imports Complex_Main "HOL-Library.AList" "HOL-Library.Multiset"
begin

section \<open>Python exceptions\<close>

text \<open>
  Every exception the two scripts can meet is a value.  \<open>JSONRPCException\<close> is the one
  exception class the transaction builder names in its \<open>except\<close> clauses;
  \<open>TransportError\<close> stands for any other exception an RPC call raises (a refused or
  dropped connection, a socket timeout), which only an \<open>except Exception\<close> clause or a
  bare \<open>except\<close> catches.  The remaining constructors are raised by \<open>decimal\<close> and
  by attribute access on \<open>None\<close>.
\<close>

datatype exn =
    JSONRPCException
  | TransportError
  | AttributeError
  | InvalidOperation
  | DivisionByZero
  | DecimalOverflow
  | ValueError
  | OverflowError

section \<open>Python's \<open>decimal.Decimal\<close> under the default context\<close>

text \<open>
  A \<open>Decimal\<close> is a sign (\<open>True\<close> is negative), a coefficient and an exponent, or one
  of the special values.  \<open>Decimal(x)\<close> itself is exact for an int, a float, a string
  and a Decimal, so an argument of the scripts is modelled by the \<open>decimal\<close> it
  constructs.  Arithmetic rounds to the default context: 28 digits, round-half-even,
  exponents between -999999 and 999999, with the traps \<open>InvalidOperation\<close>,
  \<open>DivisionByZero\<close> and \<open>Overflow\<close> enabled.
\<close>

datatype decimal =
    Finite bool nat int
  | Infinity bool
  | NaN
  | SNaN

definition prec :: int where "prec = 28"
definition Emax :: int where "Emax = 999999"
definition Emin :: int where "Emin = - 999999"
definition Etiny :: int where "Etiny = Emin - prec + 1"
definition Etop :: int where "Etop = Emax - prec + 1"

text \<open>\<open>len(self._int)\<close>: the number of decimal digits of the coefficient (1 for zero).\<close>

fun ndigits :: "nat \<Rightarrow> nat" where
  "ndigits n = (if n < 10 then 1 else Suc (ndigits (n div 10)))"

declare ndigits.simps [simp del]

text \<open>
  Rounding a coefficient \<open>c\<close> half-even when its last \<open>k\<close> digits are dropped
  (\<open>_round_half_even\<close> followed by the increment in \<open>_fix\<close>).
\<close>

definition round_half_even :: "nat \<Rightarrow> nat \<Rightarrow> nat" where
  "round_half_even c k =
     (let q = c div 10 ^ k; r = c mod 10 ^ k in
      if 2 * r > 10 ^ k \<or> (2 * r = 10 ^ k \<and> odd q) then q + 1 else q)"

text \<open>
  \<open>Decimal._fix\<close>: fit a finite result to the context.  A zero has its exponent
  clamped; a result above \<open>Emax\<close> raises \<open>Overflow\<close>; a coefficient that is too long
  (or a subnormal one) is rounded at exponent \<open>exp_min\<close>.
\<close>

definition dec_fix :: "bool \<Rightarrow> nat \<Rightarrow> int \<Rightarrow> exn + decimal" where
  "dec_fix s c e =
     (if c = 0 then Inr (Finite s 0 (min (max e Etiny) Emax))
      else
        let exp_min0 = int (ndigits c) + e - prec in
        if exp_min0 > Etop then Inl DecimalOverflow
        else
          let exp_min = max exp_min0 Etiny in
          if e < exp_min then
            let digits = int (ndigits c) + e - exp_min;
                c1 = (if digits < 0 then 1 else c);
                e1 = (if digits < 0 then exp_min - 1 else e);
                coeff = round_half_even c1 (nat (exp_min - e1));
                long = (int (ndigits coeff) > prec);
                coeff' = (if long then coeff div 10 else coeff);
                exp_min' = (if long then exp_min + 1 else exp_min)
            in if exp_min' > Etop then Inl DecimalOverflow
               else Inr (Finite s coeff' exp_min')
          else Inr (Finite s c e))"

text \<open>\<open>Decimal.__mul__\<close>.\<close>

fun dec_mul :: "decimal \<Rightarrow> decimal \<Rightarrow> exn + decimal" where
  "dec_mul SNaN _ = Inl InvalidOperation"
| "dec_mul _ SNaN = Inl InvalidOperation"
| "dec_mul NaN _ = Inr NaN"
| "dec_mul _ NaN = Inr NaN"
| "dec_mul (Infinity s) (Infinity t) = Inr (Infinity (s \<noteq> t))"
| "dec_mul (Infinity s) (Finite t c e) =
     (if c = 0 then Inl InvalidOperation else Inr (Infinity (s \<noteq> t)))"
| "dec_mul (Finite s c e) (Infinity t) =
     (if c = 0 then Inl InvalidOperation else Inr (Infinity (s \<noteq> t)))"
| "dec_mul (Finite s c e) (Finite t d f) = dec_fix (s \<noteq> t) (c * d) (e + f)"

text \<open>
  The exact-quotient branch of \<open>Decimal.__truediv__\<close> strips trailing zeros while the
  exponent is below the ideal one.
\<close>

function strip_zeros :: "nat \<Rightarrow> int \<Rightarrow> int \<Rightarrow> nat \<times> int" where
  "strip_zeros coeff expo ideal =
     (if expo < ideal \<and> coeff mod 10 = 0 \<and> coeff \<noteq> 0
      then strip_zeros (coeff div 10) (expo + 1) ideal
      else (coeff, expo))"
  by pat_completeness auto
termination
  by (relation "measure (\<lambda>(coeff, expo, ideal). coeff)") auto

declare strip_zeros.simps [simp del]

text \<open>\<open>Decimal.__truediv__\<close>.\<close>

fun dec_div :: "decimal \<Rightarrow> decimal \<Rightarrow> exn + decimal" where
  "dec_div SNaN _ = Inl InvalidOperation"
| "dec_div _ SNaN = Inl InvalidOperation"
| "dec_div NaN _ = Inr NaN"
| "dec_div _ NaN = Inr NaN"
| "dec_div (Infinity s) (Infinity t) = Inl InvalidOperation"
| "dec_div (Infinity s) (Finite t d f) = Inr (Infinity (s \<noteq> t))"
| "dec_div (Finite s c e) (Infinity t) = Inr (Finite (s \<noteq> t) 0 Etiny)"
| "dec_div (Finite s c e) (Finite t d f) =
     (if d = 0 then (if c = 0 then Inl InvalidOperation else Inl DivisionByZero)
      else if c = 0 then dec_fix (s \<noteq> t) 0 (e - f)
      else
        let shift = int (ndigits d) - int (ndigits c) + prec + 1;
            expo = e - f - shift;
            num = (if shift \<ge> 0 then c * 10 ^ nat shift else c);
            den = (if shift \<ge> 0 then d else d * 10 ^ nat (- shift));
            coeff = num div den;
            remainder = num mod den
        in if remainder \<noteq> 0
           then dec_fix (s \<noteq> t) (if coeff mod 5 = 0 then coeff + 1 else coeff) expo
           else (case strip_zeros coeff expo (e - f) of
                   (coeff', expo') \<Rightarrow> dec_fix (s \<noteq> t) coeff' expo'))"

text \<open>\<open>Decimal(n)\<close> for a Python int, and \<open>int(d)\<close>, which truncates toward zero.\<close>

definition decimal_of_int :: "int \<Rightarrow> decimal" where
  "decimal_of_int n = Finite (n < 0) (nat \<bar>n\<bar>) 0"

fun int_of_decimal :: "decimal \<Rightarrow> exn + int" where
  "int_of_decimal (Finite s c e) =
     (let m = (if e \<ge> 0 then int c * 10 ^ nat e else int (c div 10 ^ nat (- e)))
      in Inr (if s then - m else m))"
| "int_of_decimal (Infinity s) = Inl OverflowError"
| "int_of_decimal NaN = Inl ValueError"
| "int_of_decimal SNaN = Inl ValueError"

text \<open>\<open>Decimal('1e8')\<close>.\<close>

definition one_e8 :: decimal where
  "one_e8 = Finite False 1 8"

text \<open>
  The expression \<open>int(Decimal(x) * Decimal('1e8'))\<close>, which both scripts use to turn a
  BTC amount into satoshis.
\<close>

definition to_sats :: "decimal \<Rightarrow> exn + int" where
  "to_sats x = (case dec_mul x one_e8 of Inl err \<Rightarrow> Inl err | Inr p \<Rightarrow> int_of_decimal p)"

section \<open>The transaction builder: pure parts\<close>

text \<open>\<open>BitcoinTransactionCreator.calculate_transaction_fee\<close>.\<close>

definition calculate_transaction_fee :: "int \<Rightarrow> int \<Rightarrow> int" where
  "calculate_transaction_fee tx_size_bytes sat_per_byte = tx_size_bytes * sat_per_byte"

text \<open>\<open>BitcoinTransactionCreator.estimate_transaction_size\<close>.\<close>

definition estimate_transaction_size :: "int \<Rightarrow> int \<Rightarrow> bool \<Rightarrow> int" where
  "estimate_transaction_size input_count output_count is_segwit =
     (let BASE_TX_SIZE = 10;
          INPUT_SIZE_NON_SEGWIT = 148;
          INPUT_SIZE_SEGWIT = 68;
          OUTPUT_SIZE = 34;
          input_size = (if is_segwit then INPUT_SIZE_SEGWIT else INPUT_SIZE_NON_SEGWIT);
          estimated_size = BASE_TX_SIZE + (input_count * input_size) + (output_count * OUTPUT_SIZE)
      in estimated_size)"

section \<open>Data returned by the node\<close>

text \<open>
  An entry of \<open>listunspent\<close>: the dictionary keys the scripts read.  \<open>amount\<close> is the
  \<open>Decimal\<close> the RPC library parses; \<open>safe\<close> may be absent.
\<close>

record utxo =
  txid :: string
  vout :: int
  address :: string
  amount :: decimal
  confirmations :: int
  spendable :: bool
  safe :: "bool option"

text \<open>A selected input, \<open>{"txid": ..., "vout": ...}\<close>.\<close>

record tx_input =
  input_txid :: string
  input_vout :: int

text \<open>The result of \<open>signrawtransactionwithwallet\<close>.\<close>

record signed_tx =
  hex :: string
  complete :: bool

text \<open>An entry of \<open>listreceivedbyaddress\<close> and the result of \<open>getblockchaininfo\<close>.\<close>

record received =
  recv_address :: string

record chain_info =
  chain :: string
  blocks :: int

section \<open>Coin selection\<close>

text \<open>
  \<open>sorted(xs, key=..., reverse=True)\<close> on integer keys: a stable sort in which every
  comparison is reversed, so elements with equal keys keep their original order.
\<close>

definition sorted_reverse :: "('a \<Rightarrow> int) \<Rightarrow> 'a list \<Rightarrow> 'a list" where
  "sorted_reverse key xs = sort_key (\<lambda>x. - key x) xs"

definition input_of :: "utxo \<Rightarrow> tx_input" where
  "input_of output = \<lparr>input_txid = txid output, input_vout = vout output\<rparr>"

text \<open>
  The \<open>for\<close> loop of \<open>select_inputs_for_amount\<close>, with \<open>selected_inputs\<close> and
  \<open>total_sats\<close> as the accumulator; \<open>break\<close> returns the accumulator.
\<close>

fun accumulate :: "int \<Rightarrow> utxo list \<Rightarrow> tx_input list \<times> int \<Rightarrow> exn + (tx_input list \<times> int)" where
  "accumulate target_sats [] (selected_inputs, total_sats) = Inr (selected_inputs, total_sats)"
| "accumulate target_sats (output # rest) (selected_inputs, total_sats) =
     (if total_sats \<ge> target_sats then Inr (selected_inputs, total_sats)
      else case to_sats (amount output) of
             Inl err \<Rightarrow> Inl err
           | Inr output_sats \<Rightarrow>
               accumulate target_sats rest
                 (selected_inputs @ [input_of output], total_sats + output_sats))"

text \<open>\<open>BitcoinTransactionCreator.select_inputs_for_amount\<close>.\<close>

definition select_inputs_for_amount ::
  "decimal \<Rightarrow> utxo list \<Rightarrow> exn + (tx_input list \<times> int \<times> int)" where
  "select_inputs_for_amount target_amount_btc unspent_outputs =
     (case to_sats target_amount_btc of
        Inl err \<Rightarrow> Inl err
      | Inr target_sats \<Rightarrow>
          let sorted_outputs = sorted_reverse confirmations unspent_outputs in
          (case accumulate target_sats sorted_outputs ([], 0) of
             Inl err \<Rightarrow> Inl err
           | Inr (selected_inputs, total_sats) \<Rightarrow>
               if total_sats < target_sats then Inr ([], 0, 0)
               else let change_sats = total_sats - target_sats
                    in Inr (selected_inputs, total_sats, change_sats)))"

section \<open>The node behind the RPC proxy\<close>

text \<open>
  What the node answers to each RPC method: a value, or the exception the proxy raises.
  Each flow below calls a method at most once, so the answers are functions of the
  arguments alone.
\<close>

record node =
  getblockchaininfo :: "exn + chain_info"
  listunspent :: "int \<Rightarrow> int \<Rightarrow> string list option \<Rightarrow> exn + utxo list"
  listreceivedbyaddress :: "int \<Rightarrow> bool \<Rightarrow> exn + received list"
  createrawtransaction :: "tx_input list \<Rightarrow> (string \<times> decimal) list \<Rightarrow> exn + string"
  signrawtransactionwithwallet :: "string \<Rightarrow> exn + signed_tx"
  sendrawtransaction :: "string \<Rightarrow> exn + string"

text \<open>The RPC calls an operation makes, in order.\<close>

datatype rpc_call =
    GetBlockchainInfo
  | ListUnspent int int "string list option"
  | ListReceivedByAddress int bool
  | CreateRawTransaction "tx_input list" "(string \<times> decimal) list"
  | SignRawTransactionWithWallet string
  | SendRawTransaction string

section \<open>The transaction builder: RPC operations\<close>

text \<open>
  Each method takes \<open>self.node_client\<close> (\<open>None\<close> until \<open>connect_to_node\<close> has run) and
  returns its result, or the exception that leaves it, together with the RPC calls made.
\<close>

text \<open>
  \<open>connect_to_node\<close>: the proxy is stored before it is tested, and any exception of
  the test gives \<open>False\<close>.
\<close>

definition connect_to_node :: "node \<Rightarrow> bool \<times> node option \<times> rpc_call list" where
  "connect_to_node world =
     (case getblockchaininfo world of
        Inr blockchain_info \<Rightarrow> (True, Some world, [GetBlockchainInfo])
      | Inl error \<Rightarrow> (False, Some world, [GetBlockchainInfo]))"

definition create_raw_transaction ::
  "node option \<Rightarrow> tx_input list \<Rightarrow> (string \<times> decimal) list
   \<Rightarrow> (exn + string option) \<times> rpc_call list" where
  "create_raw_transaction node_client inputs_list outputs_dict =
     (case node_client of
        None \<Rightarrow> (Inr None, [])
      | Some client \<Rightarrow>
          (case createrawtransaction client inputs_list outputs_dict of
             Inr raw_tx \<Rightarrow> (Inr (Some raw_tx), [CreateRawTransaction inputs_list outputs_dict])
           | Inl JSONRPCException \<Rightarrow> (Inr None, [CreateRawTransaction inputs_list outputs_dict])
           | Inl other \<Rightarrow> (Inl other, [CreateRawTransaction inputs_list outputs_dict])))"

definition sign_transaction ::
  "node option \<Rightarrow> string \<Rightarrow> (exn + signed_tx option) \<times> rpc_call list" where
  "sign_transaction node_client raw_tx_hex =
     (case node_client of
        None \<Rightarrow> (Inl AttributeError, [])
      | Some client \<Rightarrow>
          (case signrawtransactionwithwallet client raw_tx_hex of
             Inr signed \<Rightarrow> (Inr (Some signed), [SignRawTransactionWithWallet raw_tx_hex])
           | Inl JSONRPCException \<Rightarrow> (Inr None, [SignRawTransactionWithWallet raw_tx_hex])
           | Inl other \<Rightarrow> (Inl other, [SignRawTransactionWithWallet raw_tx_hex])))"

definition broadcast_transaction ::
  "node option \<Rightarrow> string \<Rightarrow> (exn + string option) \<times> rpc_call list" where
  "broadcast_transaction node_client signed_tx_hex =
     (case node_client of
        None \<Rightarrow> (Inl AttributeError, [])
      | Some client \<Rightarrow>
          (case sendrawtransaction client signed_tx_hex of
             Inr tx_hash \<Rightarrow> (Inr (Some tx_hash), [SendRawTransaction signed_tx_hex])
           | Inl JSONRPCException \<Rightarrow> (Inr None, [SendRawTransaction signed_tx_hex])
           | Inl other \<Rightarrow> (Inl other, [SendRawTransaction signed_tx_hex])))"

text \<open>
  \<open>get_unspent_outputs\<close>: \<open>if addresses\<close> is false for \<open>None\<close> and for the empty
  list, and then the call has two arguments.
\<close>

definition get_unspent_outputs ::
  "node option \<Rightarrow> int \<Rightarrow> int \<Rightarrow> string list option \<Rightarrow> (exn + utxo list) \<times> rpc_call list" where
  "get_unspent_outputs node_client min_confirmations max_confirmations addresses =
     (case node_client of
        None \<Rightarrow> (Inl AttributeError, [])
      | Some client \<Rightarrow>
          let args = (if addresses = None \<or> addresses = Some [] then None else addresses) in
          (case listunspent client min_confirmations max_confirmations args of
             Inr unspent \<Rightarrow> (Inr unspent, [ListUnspent min_confirmations max_confirmations args])
           | Inl JSONRPCException \<Rightarrow>
               (Inr [], [ListUnspent min_confirmations max_confirmations args])
           | Inl other \<Rightarrow>
               (Inl other, [ListUnspent min_confirmations max_confirmations args])))"

section \<open>The transaction builder: \<open>create_and_send_transaction\<close>\<close>

text \<open>
  The module constants.  \<open>AMOUNT_BTC\<close> is the float \<open>0.001\<close>; \<open>Decimal(0.001)\<close> is
  the exact value of that double.
\<close>

definition RECIPIENT_ADDRESS :: string where
  "RECIPIENT_ADDRESS = ''bc1qaddresshere''"

definition AMOUNT_BTC :: decimal where
  "AMOUNT_BTC =
     Finite False 1000000000000000020816681711721685132943093776702880859375 (- 60)"

definition FEE_RATE :: int where
  "FEE_RATE = 2"

text \<open>
  Lines 251 to 262: the outputs dictionary, with the change output when there is change.
  Assigning to a key that is already present replaces its value in place.  The bare
  \<open>except\<close> turns every exception of the block into a return, here \<open>None\<close>.
\<close>

definition build_outputs ::
  "node option \<Rightarrow> int \<Rightarrow> (string \<times> decimal) list option \<times> rpc_call list" where
  "build_outputs node_client change_sats =
     (let outputs = [(RECIPIENT_ADDRESS, AMOUNT_BTC)] in
      if change_sats > 0 then
        (case node_client of
           None \<Rightarrow> (None, [])
         | Some client \<Rightarrow>
             (case listreceivedbyaddress client 0 True of
                Inl error \<Rightarrow> (None, [ListReceivedByAddress 0 True])
              | Inr [] \<Rightarrow> (Some outputs, [ListReceivedByAddress 0 True])
              | Inr (first # others) \<Rightarrow>
                  (case dec_div (decimal_of_int change_sats) one_e8 of
                     Inl error \<Rightarrow> (None, [ListReceivedByAddress 0 True])
                   | Inr change_btc \<Rightarrow>
                       (Some (AList.update (recv_address first) change_btc outputs),
                        [ListReceivedByAddress 0 True]))))
      else (Some outputs, []))"

text \<open>
  Lines 264 to 288: create the raw transaction, sign it, check \<open>complete\<close>, broadcast.
  An empty string is false in \<open>if not raw_tx\<close>.  The result is the transaction hash
  that was printed, if any.
\<close>

definition submit_transaction ::
  "node option \<Rightarrow> tx_input list \<Rightarrow> (string \<times> decimal) list
   \<Rightarrow> (exn + string option) \<times> rpc_call list" where
  "submit_transaction node_client inputs outputs =
     (case create_raw_transaction node_client inputs outputs of
        (Inl err, t1) \<Rightarrow> (Inl err, t1)
      | (Inr None, t1) \<Rightarrow> (Inr None, t1)
      | (Inr (Some raw_tx), t1) \<Rightarrow>
          if raw_tx = [] then (Inr None, t1)
          else
            (case sign_transaction node_client raw_tx of
               (Inl err, t2) \<Rightarrow> (Inl err, t1 @ t2)
             | (Inr None, t2) \<Rightarrow> (Inr None, t1 @ t2)
             | (Inr (Some signed), t2) \<Rightarrow>
                 if \<not> complete signed then (Inr None, t1 @ t2)
                 else
                   (case broadcast_transaction node_client (hex signed) of
                      (Inl err, t3) \<Rightarrow> (Inl err, t1 @ t2 @ t3)
                    | (Inr None, t3) \<Rightarrow> (Inr None, t1 @ t2 @ t3)
                    | (Inr (Some tx_hash), t3) \<Rightarrow>
                        (Inr (if tx_hash = [] then None else Some tx_hash), t1 @ t2 @ t3))))"

text \<open>
  \<open>create_and_send_transaction\<close>, run against the node at the configured address.
\<close>

definition create_and_send_transaction :: "node \<Rightarrow> (exn + string option) \<times> rpc_call list" where
  "create_and_send_transaction world =
     (case connect_to_node world of
        (is_connected, node_client, t0) \<Rightarrow>
          if \<not> is_connected then (Inr None, t0)
          else
            (case get_unspent_outputs node_client 1 9999999 None of
               (Inl err, t1) \<Rightarrow> (Inl err, t0 @ t1)
             | (Inr unspent_outputs, t1) \<Rightarrow>
                 if unspent_outputs = [] then (Inr None, t0 @ t1)
                 else
                   (case select_inputs_for_amount AMOUNT_BTC unspent_outputs of
                      Inl err \<Rightarrow> (Inl err, t0 @ t1)
                    | Inr (inputs, total_sats, change_sats) \<Rightarrow>
                        if inputs = [] then (Inr None, t0 @ t1)
                        else
                          let output_count = (if change_sats > 0 then 2 else 1);
                              estimated_size =
                                estimate_transaction_size (int (length inputs)) output_count True;
                              fee_sats = calculate_transaction_fee estimated_size FEE_RATE
                          in
                          (case to_sats AMOUNT_BTC of
                             Inl err \<Rightarrow> (Inl err, t0 @ t1)
                           | Inr amount_sats \<Rightarrow>
                               if total_sats < amount_sats + fee_sats then (Inr None, t0 @ t1)
                               else
                                 let change_sats' = total_sats - amount_sats - fee_sats in
                                 (case build_outputs node_client change_sats' of
                                    (None, t2) \<Rightarrow> (Inr None, t0 @ t1 @ t2)
                                  | (Some outputs, t2) \<Rightarrow>
                                      (case submit_transaction node_client inputs outputs of
                                         (result, t3) \<Rightarrow> (result, t0 @ t1 @ t2 @ t3)))))))"

section \<open>The balance inspector\<close>

text \<open>
  An entry of \<open>unspent_list\<close> and the report.  \<open>btc_value\<close> is a Python float; its type
  is left open and the conversion \<open>float\<close> is a parameter.
\<close>

record 'f transaction_record =
  transaction_id :: string
  output_index :: int
  btc_value :: 'f
  sats_value :: int
  rec_confirmations :: int
  rec_spendable :: bool
  secure :: bool

record 'f report =
  report_address :: string
  total_btc :: decimal
  total_sats :: int
  unspent_count :: nat
  unspent_list :: "'f transaction_record list"

text \<open>
  The \<open>for\<close> loop of \<open>calculate_unspent_balance\<close>, with \<open>cumulative_sats\<close> and
  \<open>unspent_items\<close> as the accumulator.
\<close>

fun scan_unspent ::
  "(decimal \<Rightarrow> 'f) \<Rightarrow> string \<Rightarrow> utxo list \<Rightarrow> int \<times> 'f transaction_record list
   \<Rightarrow> exn + (int \<times> 'f transaction_record list)" where
  "scan_unspent float_of target_address [] (cumulative_sats, unspent_items) =
     Inr (cumulative_sats, unspent_items)"
| "scan_unspent float_of target_address (transaction # rest) (cumulative_sats, unspent_items) =
     (if address transaction = target_address then
        (case to_sats (amount transaction) of
           Inl err \<Rightarrow> Inl err
         | Inr sats \<Rightarrow>
             let transaction_record =
                   \<lparr>transaction_id = txid transaction,
                    output_index = vout transaction,
                    btc_value = float_of (amount transaction),
                    sats_value = sats,
                    rec_confirmations = confirmations transaction,
                    rec_spendable = spendable transaction,
                    secure = (case safe transaction of None \<Rightarrow> True | Some b \<Rightarrow> b)\<rparr>
             in scan_unspent float_of target_address rest
                  (cumulative_sats + sats, unspent_items @ [transaction_record]))
      else scan_unspent float_of target_address rest (cumulative_sats, unspent_items))"

text \<open>
  \<open>DigitalAssetPortfolioInspector.calculate_unspent_balance\<close>.  Both \<open>except\<close>
  clauses return \<open>None\<close>, so no exception leaves the method.
\<close>

definition calculate_unspent_balance ::
  "(decimal \<Rightarrow> 'f) \<Rightarrow> node option \<Rightarrow> string \<Rightarrow> 'f report option \<times> rpc_call list" where
  "calculate_unspent_balance float_of node_client target_address =
     (case node_client of
        None \<Rightarrow> (None, [])
      | Some client \<Rightarrow>
          (case listunspent client 0 9999999 (Some [target_address]) of
             Inl rpc_error \<Rightarrow> (None, [ListUnspent 0 9999999 (Some [target_address])])
           | Inr unspent_transactions \<Rightarrow>
               (case scan_unspent float_of target_address unspent_transactions (0, []) of
                  Inl error \<Rightarrow> (None, [ListUnspent 0 9999999 (Some [target_address])])
                | Inr (cumulative_sats, unspent_items) \<Rightarrow>
                    (case dec_div (decimal_of_int cumulative_sats) one_e8 of
                       Inl error \<Rightarrow> (None, [ListUnspent 0 9999999 (Some [target_address])])
                     | Inr btc \<Rightarrow>
                         (Some \<lparr>report_address = target_address,
                                total_btc = btc,
                                total_sats = cumulative_sats,
                                unspent_count = length unspent_items,
                                unspent_list = unspent_items\<rparr>,
                          [ListUnspent 0 9999999 (Some [target_address])])))))"

section \<open>Vocabulary of the properties\<close>

text \<open>
  The satoshi value of an unspent output is what \<open>to_sats\<close> returns for its amount;
  an output is \<open>valued\<close> when that conversion does not raise.
\<close>

definition valued :: "utxo \<Rightarrow> bool" where
  "valued u = (case to_sats (amount u) of Inl err \<Rightarrow> False | Inr v \<Rightarrow> True)"

definition sats :: "utxo \<Rightarrow> int" where
  "sats u = (case to_sats (amount u) of Inl err \<Rightarrow> 0 | Inr v \<Rightarrow> v)"

definition total_value :: "utxo list \<Rightarrow> int" where
  "total_value us = sum_list (map sats us)"




text \<open>
  The calls of the submission steps within a trace, and the four shapes an orderly
  submission can take: nothing; a creation that failed or gave an empty string; a creation
  followed by a signing that failed or was incomplete; creation, complete signing and
  broadcast of the signed hex.
\<close>

fun is_submit_call :: "rpc_call \<Rightarrow> bool" where
  "is_submit_call (CreateRawTransaction inputs outputs) = True"
| "is_submit_call (SignRawTransactionWithWallet raw) = True"
| "is_submit_call (SendRawTransaction signed) = True"
| "is_submit_call _ = False"

definition submit_calls :: "rpc_call list \<Rightarrow> rpc_call list" where
  "submit_calls trace = filter is_submit_call trace"

definition ordered_submission :: "node \<Rightarrow> rpc_call list \<Rightarrow> bool" where
  "ordered_submission world calls \<longleftrightarrow>
     calls = []
     \<or> (\<exists>ins outs. calls = [CreateRawTransaction ins outs]
           \<and> (\<forall>raw. createrawtransaction world ins outs = Inr raw \<longrightarrow> raw = []))
     \<or> (\<exists>ins outs raw. calls = [CreateRawTransaction ins outs, SignRawTransactionWithWallet raw]
           \<and> createrawtransaction world ins outs = Inr raw \<and> raw \<noteq> []
           \<and> (\<forall>signed. signrawtransactionwithwallet world raw = Inr signed \<longrightarrow> \<not> complete signed))
     \<or> (\<exists>ins outs raw signed.
           calls = [CreateRawTransaction ins outs, SignRawTransactionWithWallet raw,
                    SendRawTransaction (hex signed)]
           \<and> createrawtransaction world ins outs = Inr raw \<and> raw \<noteq> []
           \<and> signrawtransactionwithwallet world raw = Inr signed \<and> complete signed)"


section \<open>Example data\<close>

text \<open>
  The example of the specification: outputs of 0.3 BTC with 2 confirmations and 0.5 BTC
  with 6 confirmations, and a target of 0.4 BTC.
\<close>

definition ex_outputs :: "utxo list" where
  "ex_outputs =
     [\<lparr>txid = ''aa'', vout = 0, address = ''addr1'', amount = Finite False 3 (- 1),
       confirmations = 2, spendable = True, safe = None\<rparr>,
      \<lparr>txid = ''bb'', vout = 1, address = ''addr1'', amount = Finite False 5 (- 1),
       confirmations = 6, spendable = True, safe = Some True\<rparr>]"

definition ex_target :: decimal where
  "ex_target = Finite False 4 (- 1)"




text \<open>
  A node that answers every call, with the example outputs; a node with two outputs of
  99999999999999999999.99999999 BTC each; and a node whose calls all fail below the
  JSON-RPC layer (a dropped connection).
\<close>

definition ex_node :: node where
  "ex_node =
     \<lparr>getblockchaininfo = Inr \<lparr>chain = ''test'', blocks = 1\<rparr>,
      listunspent = (\<lambda>minconf maxconf addresses. Inr ex_outputs),
      listreceivedbyaddress = (\<lambda>minconf include_empty. Inr [\<lparr>recv_address = ''change1''\<rparr>]),
      createrawtransaction = (\<lambda>inputs outputs. Inr ''0200''),
      signrawtransactionwithwallet = (\<lambda>raw. Inr \<lparr>hex = raw @ ''ff'', complete = True\<rparr>),
      sendrawtransaction = (\<lambda>signed. Inr ''txhash'')\<rparr>"



definition dropped_node :: node where
  "dropped_node =
     \<lparr>getblockchaininfo = Inl TransportError,
      listunspent = (\<lambda>minconf maxconf addresses. Inl TransportError),
      listreceivedbyaddress = (\<lambda>minconf include_empty. Inl TransportError),
      createrawtransaction = (\<lambda>inputs outputs. Inl TransportError),
      signrawtransactionwithwallet = (\<lambda>raw. Inl TransportError),
      sendrawtransaction = (\<lambda>signed. Inl TransportError)\<rparr>"


text \<open>The submission calls of the flow against the example node.\<close>

definition ex_calls :: "rpc_call list" where
  "ex_calls =
     [CreateRawTransaction [\<lparr>input_txid = ''bb'', input_vout = 1\<rparr>]
        [(RECIPIENT_ADDRESS, AMOUNT_BTC), (''change1'', Finite False 49899708 (- 8))],
      SignRawTransactionWithWallet ''0200'',
      SendRawTransaction ''0200ff'']"

section \<open>Size and fee estimate\<close>

text \<open>
  C6: for all input and output counts, either segwit flag and every integer fee rate,
  the estimated size is 10 + n * (68 if segwit else 148) + m * 34, and the fee computed
  from that size is exactly size * rate, in unbounded integer arithmetic.
\<close>

theorem size_and_fee_exact:
  "estimate_transaction_size n m segwit = 10 + n * (if segwit then 68 else 148) + m * 34
   \<and> calculate_transaction_fee (estimate_transaction_size n m segwit) r =
       (10 + n * (if segwit then 68 else 148) + m * 34) * r"
  by (simp add: estimate_transaction_size_def calculate_transaction_fee_def)

section \<open>Coin selection: the accumulation loop\<close>

lemma to_sats_valued: "valued u \<Longrightarrow> to_sats (amount u) = Inr (sats u)"
  by (simp add: valued_def sats_def split: sum.splits)

lemma accumulate_prefix:
  "\<forall>u \<in> set xs. valued u \<Longrightarrow>
   \<exists>k \<le> length xs.
     accumulate t xs (sel, tot) =
       Inr (sel @ map input_of (take k xs), tot + total_value (take k xs))
     \<and> (\<forall>j < k. tot + total_value (take j xs) < t)
     \<and> (k < length xs \<longrightarrow> t \<le> tot + total_value (take k xs))"
proof (induction xs arbitrary: sel tot)
  case Nil
  then show ?case by (simp add: total_value_def)
next
  case (Cons x xs)
  show ?case
  proof (cases "t \<le> tot")
    case True
    then have "accumulate t (x # xs) (sel, tot) = Inr (sel, tot)" by simp
    then show ?thesis using True
      by (intro exI [of _ 0]) (simp add: total_value_def)
  next
    case False
    from Cons.prems have vx: "valued x" and vxs: "\<forall>u \<in> set xs. valued u" by simp_all
    from Cons.IH [OF vxs, of "sel @ [input_of x]" "tot + sats x"]
    obtain k where k: "k \<le> length xs"
      and acc: "accumulate t xs (sel @ [input_of x], tot + sats x) =
                  Inr ((sel @ [input_of x]) @ map input_of (take k xs),
                       tot + sats x + total_value (take k xs))"
      and below: "\<forall>j < k. tot + sats x + total_value (take j xs) < t"
      and reach: "k < length xs \<longrightarrow> t \<le> tot + sats x + total_value (take k xs)"
      by blast
    have step: "accumulate t (x # xs) (sel, tot) =
                  accumulate t xs (sel @ [input_of x], tot + sats x)"
      using False by (simp add: to_sats_valued [OF vx])
    have below': "\<forall>j < Suc k. tot + total_value (take j (x # xs)) < t"
    proof (intro allI impI)
      fix j assume "j < Suc k"
      show "tot + total_value (take j (x # xs)) < t"
      proof (cases j)
        case 0
        then show ?thesis using False by (simp add: total_value_def)
      next
        case (Suc i)
        with \<open>j < Suc k\<close> have "i < k" by simp
        with below have "tot + sats x + total_value (take i xs) < t" by blast
        then show ?thesis using Suc by (simp add: total_value_def)
      qed
    qed
    have res: "accumulate t (x # xs) (sel, tot) =
                 Inr (sel @ map input_of (take (Suc k) (x # xs)),
                      tot + total_value (take (Suc k) (x # xs)))"
      unfolding step acc by (simp add: total_value_def add.assoc)
    have reach': "Suc k < length (x # xs) \<longrightarrow> t \<le> tot + total_value (take (Suc k) (x # xs))"
      using reach by (simp add: total_value_def add.assoc)
    from k have "Suc k \<le> length (x # xs)" by simp
    with res below' reach' show ?thesis by blast
  qed
qed


lemma accumulate_Inr:
  "accumulate t xs (sel, tot) = Inr (sel', tot') \<Longrightarrow>
   \<exists>k \<le> length xs.
     (\<forall>u \<in> set (take k xs). valued u)
     \<and> sel' = sel @ map input_of (take k xs)
     \<and> tot' = tot + total_value (take k xs)
     \<and> (\<forall>j < k. tot + total_value (take j xs) < t)
     \<and> (k < length xs \<longrightarrow> t \<le> tot')"
proof (induction xs arbitrary: sel tot)
  case Nil
  then show ?case by (simp add: total_value_def)
next
  case (Cons x xs)
  show ?case
  proof (cases "t \<le> tot")
    case True
    with Cons.prems have "sel' = sel" "tot' = tot" by simp_all
    with True show ?thesis
      by (intro exI [of _ 0]) (simp add: total_value_def)
  next
    case False
    with Cons.prems obtain v where v: "to_sats (amount x) = Inr v"
      and rest: "accumulate t xs (sel @ [input_of x], tot + v) = Inr (sel', tot')"
      by (auto split: sum.splits)
    from v have vx: "valued x" and sx: "sats x = v"
      by (simp_all add: valued_def sats_def)
    from Cons.IH [OF rest] obtain k where k: "k \<le> length xs"
      and val: "\<forall>u \<in> set (take k xs). valued u"
      and sel': "sel' = (sel @ [input_of x]) @ map input_of (take k xs)"
      and tot': "tot' = tot + v + total_value (take k xs)"
      and below: "\<forall>j < k. tot + v + total_value (take j xs) < t"
      and reach: "k < length xs \<longrightarrow> t \<le> tot'"
      by blast
    have below': "\<forall>j < Suc k. tot + total_value (take j (x # xs)) < t"
    proof (intro allI impI)
      fix j assume "j < Suc k"
      show "tot + total_value (take j (x # xs)) < t"
      proof (cases j)
        case 0
        then show ?thesis using False by (simp add: total_value_def)
      next
        case (Suc i)
        with \<open>j < Suc k\<close> have "i < k" by simp
        with below have "tot + v + total_value (take i xs) < t" by blast
        then show ?thesis using Suc sx by (simp add: total_value_def)
      qed
    qed
    have "\<forall>u \<in> set (take (Suc k) (x # xs)). valued u"
      using val vx by simp
    moreover have "sel' = sel @ map input_of (take (Suc k) (x # xs))"
      using sel' by simp
    moreover have "tot' = tot + total_value (take (Suc k) (x # xs))"
      using tot' sx by (simp add: total_value_def add.assoc)
    moreover have "Suc k < length (x # xs) \<longrightarrow> t \<le> tot'"
      using reach by simp
    moreover from k have "Suc k \<le> length (x # xs)" by simp
    ultimately show ?thesis using below' by blast
  qed
qed

lemma total_value_sorted_reverse:
  "total_value (sorted_reverse key us) = total_value us"
proof -
  have "sum_mset (mset (map sats (sorted_reverse key us))) = sum_mset (mset (map sats us))"
    by (simp add: sorted_reverse_def)
  then show ?thesis
    unfolding total_value_def by (simp only: sum_mset_sum_list)
qed

lemma set_sorted_reverse: "set (sorted_reverse key us) = set us"
  by (simp add: sorted_reverse_def)

lemma length_sorted_reverse: "length (sorted_reverse key us) = length us"
  by (simp add: sorted_reverse_def)


lemma sorted_reverse_props:
  "mset (sorted_reverse key xs) = mset xs
   \<and> sorted_wrt (\<lambda>x y. key x \<ge> key y) (sorted_reverse key xs)
   \<and> (\<forall>c. filter (\<lambda>x. key x = c) (sorted_reverse key xs) = filter (\<lambda>x. key x = c) xs)"
proof (intro conjI allI)
  show "mset (sorted_reverse key xs) = mset xs"
    by (simp add: sorted_reverse_def)
  have "sorted (map (\<lambda>x. - key x) (sort_key (\<lambda>x. - key x) xs))"
    by (rule sorted_sort_key)
  then show "sorted_wrt (\<lambda>x y. key x \<ge> key y) (sorted_reverse key xs)"
    by (simp add: sorted_reverse_def sorted_map)
  fix c
  have "filter (\<lambda>y. - key y = - c) (sort_key (\<lambda>x. - key x) xs) = filter (\<lambda>y. - key y = - c) xs"
    by (rule sort_key_stable)
  then show "filter (\<lambda>x. key x = c) (sorted_reverse key xs) = filter (\<lambda>x. key x = c) xs"
    by (simp add: sorted_reverse_def)
qed

text \<open>
  C1: when the target converts to \<open>t\<close> satoshis, every output has a satoshi value and
  \<open>t\<close> is at most the sum of these values, \<open>select_inputs_for_amount\<close> returns
  (it is a total function and no conversion raises) a prefix of the sorted outputs
  together with that prefix's cumulative value, which is at least \<open>t\<close>, and the change,
  which is the cumulative value minus \<open>t\<close> and is not negative.
\<close>

theorem selection_reaches_target:
  assumes "to_sats target = Inr t"
    and "\<forall>u \<in> set us. valued u"
    and "t \<le> total_value us"
  shows "\<exists>k \<le> length us.
           select_inputs_for_amount target us =
             Inr (map input_of (take k (sorted_reverse confirmations us)),
                  total_value (take k (sorted_reverse confirmations us)),
                  total_value (take k (sorted_reverse confirmations us)) - t)
           \<and> t \<le> total_value (take k (sorted_reverse confirmations us))
           \<and> 0 \<le> total_value (take k (sorted_reverse confirmations us)) - t"
proof -
  let ?S = "sorted_reverse confirmations us"
  have "\<forall>u \<in> set ?S. valued u"
    using assms(2) by (simp add: set_sorted_reverse)
  from accumulate_prefix [OF this, of t "[]" 0]
  obtain k where k: "k \<le> length ?S"
    and acc: "accumulate t ?S ([], 0) = Inr (map input_of (take k ?S), total_value (take k ?S))"
    and reach: "k < length ?S \<longrightarrow> t \<le> total_value (take k ?S)"
    by auto
  have ge: "t \<le> total_value (take k ?S)"
  proof (cases "k < length ?S")
    case True
    with reach show ?thesis by blast
  next
    case False
    with k have "take k ?S = ?S" by simp
    then show ?thesis
      using assms(3) by (simp add: total_value_sorted_reverse)
  qed
  have "select_inputs_for_amount target us =
          Inr (map input_of (take k ?S), total_value (take k ?S), total_value (take k ?S) - t)"
    using assms(1) acc ge by (simp add: select_inputs_for_amount_def)
  moreover from k have "k \<le> length us" by (simp add: length_sorted_reverse)
  ultimately show ?thesis using ge by auto
qed

theorem selection_reaches_target_witness:
  "to_sats ex_target = Inr 40000000
   \<and> list_all valued ex_outputs
   \<and> 40000000 \<le> total_value ex_outputs
   \<and> (\<exists>k \<le> length ex_outputs.
         select_inputs_for_amount ex_target ex_outputs =
           Inr (map input_of (take k (sorted_reverse confirmations ex_outputs)),
                total_value (take k (sorted_reverse confirmations ex_outputs)),
                total_value (take k (sorted_reverse confirmations ex_outputs)) - 40000000)
         \<and> 40000000 \<le> total_value (take k (sorted_reverse confirmations ex_outputs))
         \<and> 0 \<le> total_value (take k (sorted_reverse confirmations ex_outputs)) - 40000000)"
proof -
  have h1: "to_sats ex_target = Inr 40000000" by code_simp
  have h2: "\<forall>u \<in> set ex_outputs. valued u" by code_simp
  have h3: "40000000 \<le> total_value ex_outputs" by code_simp
  from h2 have h2': "list_all valued ex_outputs" by (simp add: list_all_iff)
  from selection_reaches_target [OF h1 h2 h3] h1 h2' h3 show ?thesis by blast
qed




text \<open>
  C3: the list the loop runs over is the input list sorted by confirmations descending,
  stably (a permutation, in descending order, with the outputs of each confirmation count
  in their original order).  The loop selects exactly the first \<open>k\<close> outputs of it, where
  no shorter prefix reaches the target, and it stops before the end of the list only when
  the target is reached.  The returned inputs are that prefix whenever it reaches the
  target; when the whole list does not reach it the returned list is empty.
\<close>

theorem selection_is_shortest_prefix:
  assumes "to_sats target = Inr t"
    and "select_inputs_for_amount target us = Inr (sel, tot, change)"
  shows "mset (sorted_reverse confirmations us) = mset us
    \<and> sorted_wrt (\<lambda>x y. confirmations x \<ge> confirmations y) (sorted_reverse confirmations us)
    \<and> (\<forall>c. filter (\<lambda>x. confirmations x = c) (sorted_reverse confirmations us) =
             filter (\<lambda>x. confirmations x = c) us)
    \<and> (\<exists>k \<le> length us.
          accumulate t (sorted_reverse confirmations us) ([], 0) =
            Inr (map input_of (take k (sorted_reverse confirmations us)),
                 total_value (take k (sorted_reverse confirmations us)))
          \<and> (\<forall>j < k. total_value (take j (sorted_reverse confirmations us)) < t)
          \<and> (k < length us \<longrightarrow> t \<le> total_value (take k (sorted_reverse confirmations us)))
          \<and> (t \<le> total_value (take k (sorted_reverse confirmations us)) \<longrightarrow>
                sel = map input_of (take k (sorted_reverse confirmations us))
                \<and> tot = total_value (take k (sorted_reverse confirmations us)))
          \<and> (total_value (take k (sorted_reverse confirmations us)) < t \<longrightarrow> sel = []))"
proof -
  let ?S = "sorted_reverse confirmations us"
  have unfolded: "select_inputs_for_amount target us =
      (case accumulate t ?S ([], 0) of
         Inl err \<Rightarrow> Inl err
       | Inr (sel', tot') \<Rightarrow> if tot' < t then Inr ([], 0, 0) else Inr (sel', tot', tot' - t))"
    using assms(1) by (simp add: select_inputs_for_amount_def Let_def split: sum.splits prod.splits)
  obtain sel' tot' where acc: "accumulate t ?S ([], 0) = Inr (sel', tot')"
    using assms(2) unfolding unfolded by (cases "accumulate t ?S ([], 0)") auto
  have ret: "(if tot' < t then Inr ([], 0, 0) else Inr (sel', tot', tot' - t)) =
                (Inr (sel, tot, change) :: exn + tx_input list \<times> int \<times> int)"
    using assms(2) unfolding unfolded acc by simp
  from accumulate_Inr [OF acc] obtain k where k: "k \<le> length ?S"
    and sel': "sel' = map input_of (take k ?S)"
    and tot': "tot' = total_value (take k ?S)"
    and below: "\<forall>j < k. total_value (take j ?S) < t"
    and reach: "k < length ?S \<longrightarrow> t \<le> tot'"
    by auto
  have "t \<le> total_value (take k ?S) \<longrightarrow> sel = map input_of (take k ?S) \<and> tot = total_value (take k ?S)"
    using ret sel' tot' by (auto split: if_splits)
  moreover have "total_value (take k ?S) < t \<longrightarrow> sel = []"
    using ret tot' by (auto split: if_splits)
  moreover have "accumulate t ?S ([], 0) = Inr (map input_of (take k ?S), total_value (take k ?S))"
    using acc sel' tot' by simp
  moreover have "k \<le> length us" "k < length us \<longrightarrow> t \<le> total_value (take k ?S)"
    using k reach tot' by (simp_all add: length_sorted_reverse)
  ultimately have "\<exists>k \<le> length us.
          accumulate t ?S ([], 0) = Inr (map input_of (take k ?S), total_value (take k ?S))
          \<and> (\<forall>j < k. total_value (take j ?S) < t)
          \<and> (k < length us \<longrightarrow> t \<le> total_value (take k ?S))
          \<and> (t \<le> total_value (take k ?S) \<longrightarrow>
                sel = map input_of (take k ?S) \<and> tot = total_value (take k ?S))
          \<and> (total_value (take k ?S) < t \<longrightarrow> sel = [])"
    using below by blast
  with sorted_reverse_props [of confirmations us] show ?thesis by blast
qed

theorem selection_is_shortest_prefix_witness:
  "to_sats ex_target = Inr 40000000
   \<and> select_inputs_for_amount ex_target ex_outputs =
       Inr ([\<lparr>input_txid = ''bb'', input_vout = 1\<rparr>], 50000000, 10000000)
   \<and> (mset (sorted_reverse confirmations ex_outputs) = mset ex_outputs
    \<and> sorted_wrt (\<lambda>x y. confirmations x \<ge> confirmations y)
          (sorted_reverse confirmations ex_outputs)
    \<and> (\<forall>c. filter (\<lambda>x. confirmations x = c) (sorted_reverse confirmations ex_outputs) =
             filter (\<lambda>x. confirmations x = c) ex_outputs)
    \<and> (\<exists>k \<le> length ex_outputs.
          accumulate 40000000 (sorted_reverse confirmations ex_outputs) ([], 0) =
            Inr (map input_of (take k (sorted_reverse confirmations ex_outputs)),
                 total_value (take k (sorted_reverse confirmations ex_outputs)))
          \<and> (\<forall>j < k. total_value (take j (sorted_reverse confirmations ex_outputs)) < 40000000)
          \<and> (k < length ex_outputs \<longrightarrow>
                40000000 \<le> total_value (take k (sorted_reverse confirmations ex_outputs)))
          \<and> (40000000 \<le> total_value (take k (sorted_reverse confirmations ex_outputs)) \<longrightarrow>
                [\<lparr>input_txid = ''bb'', input_vout = 1\<rparr>] =
                  map input_of (take k (sorted_reverse confirmations ex_outputs))
                \<and> 50000000 = total_value (take k (sorted_reverse confirmations ex_outputs)))
          \<and> (total_value (take k (sorted_reverse confirmations ex_outputs)) < 40000000 \<longrightarrow>
                [\<lparr>input_txid = ''bb'', input_vout = 1\<rparr>] = [])))"
proof -
  have h1: "to_sats ex_target = Inr 40000000" by code_simp
  have h2: "select_inputs_for_amount ex_target ex_outputs =
       Inr ([\<lparr>input_txid = ''bb'', input_vout = 1\<rparr>], 50000000, 10000000)" by code_simp
  show ?thesis
    by (rule conjI [OF h1 conjI [OF h2 selection_is_shortest_prefix [OF h1 h2]]])
qed

text \<open>
  C5: a target of zero (\<open>Decimal(0.0)\<close> is \<open>Finite False 0 0\<close>; any sign and exponent
  of a zero behave alike) gives the empty selection, total 0 and change 0 for every list
  of outputs: the loop stops before it reads the first output.
\<close>

theorem zero_target_selects_nothing:
  "select_inputs_for_amount (Finite s 0 e) us = Inr ([], 0, 0)"
proof -
  have t: "to_sats (Finite s 0 e) = Inr 0"
    by (simp add: to_sats_def one_e8_def dec_fix_def)
  have "accumulate 0 xs ([], 0) = Inr ([], 0)" for xs
    by (cases xs) simp_all
  with t show ?thesis
    by (simp add: select_inputs_for_amount_def)
qed

section \<open>The satoshi conversion\<close>

lemma ndigits_le: "0 < k \<Longrightarrow> c < 10 ^ k \<Longrightarrow> ndigits c \<le> k"
proof (induction k arbitrary: c)
  case 0
  then show ?case by simp
next
  case (Suc k)
  show ?case
  proof (cases "c < 10")
    case True
    then show ?thesis by (simp add: ndigits.simps)
  next
    case False
    with Suc.prems have "0 < k" by (cases k) simp_all
    moreover from Suc.prems have "c div 10 < 10 ^ k" by (simp add: less_mult_imp_div_less)
    ultimately have "ndigits (c div 10) \<le> k" by (rule Suc.IH)
    with False show ?thesis by (simp add: ndigits.simps)
  qed
qed

lemma dec_fix_exact:
  assumes "c \<noteq> 0" and "int (ndigits c) \<le> prec" and "Etiny \<le> e"
    and "int (ndigits c) + e - prec \<le> Etop"
  shows "dec_fix s c e = Inr (Finite s c e)"
proof -
  have "\<not> e < max (int (ndigits c) + e - prec) Etiny"
    using assms(2,3) by simp
  with assms(1,4) show ?thesis
    by (simp add: dec_fix_def Let_def)
qed













text \<open>
  A coefficient of more than 28 digits is rounded before \<open>int\<close> truncates: 35 nines
  after the decimal point give 100000000 satoshis, not 99999999.
\<close>

lemma long_coefficient_rounds_first:
  "to_sats (Finite False 99999999999999999999999999999999999 (- 35)) = Inr 100000000"
proof -
  have nd: "ndigits 99999999999999999999999999999999999 = 35"
    "ndigits 10000000000000000000000000000 = 29"
    by (simp_all add: ndigits.simps)
  show ?thesis
    by (simp add: to_sats_def one_e8_def dec_fix_def Let_def nd round_half_even_def
          prec_def Etop_def Etiny_def Emin_def Emax_def)
qed

section \<open>The balance report\<close>

lemma strip_zeros_pow:
  "c \<noteq> 0 \<Longrightarrow> strip_zeros (c * 10 ^ k) (i - int k) i = (c, i)"
proof (induction k)
  case 0
  then show ?case by (simp add: strip_zeros.simps)
next
  case (Suc k)
  have "strip_zeros (c * 10 ^ Suc k) (i - int (Suc k)) i =
          strip_zeros (c * 10 ^ Suc k div 10) (i - int (Suc k) + 1) i"
    using Suc.prems by (subst strip_zeros.simps) simp
  also have "c * 10 ^ Suc k div 10 = c * 10 ^ k" by simp
  also have "i - int (Suc k) + 1 = i - int k" by simp
  finally show ?case using Suc by simp
qed

lemma ndigits_one: "ndigits (Suc 0) = Suc 0"
  by (simp add: ndigits.simps)

lemma dec_div_int_one_e8:
  assumes "\<bar>n\<bar> < 10 ^ 28"
  shows "dec_div (decimal_of_int n) one_e8 = Inr (Finite (n < 0) (nat \<bar>n\<bar>) (- 8))"
proof (cases "n = 0")
  case True
  then show ?thesis
    by (simp add: decimal_of_int_def one_e8_def dec_fix_def Etiny_def Emin_def prec_def Emax_def)
next
  case False
  let ?c = "nat \<bar>n\<bar>"
  from False have c0: "?c \<noteq> 0" by simp
  from assms have "?c < 10 ^ 28"
    by (simp add: nat_less_iff)
  then have nd: "ndigits ?c \<le> 28" by (intro ndigits_le) simp_all
  let ?shift = "int (ndigits 1) - int (ndigits ?c) + prec + 1"
  have shift: "?shift = int (30 - ndigits ?c)" "0 \<le> ?shift"
    using nd by (simp_all add: ndigits_one prec_def)
  have strip: "strip_zeros (?c * 10 ^ nat ?shift) (0 - 8 - ?shift) (0 - 8) = (?c, - 8)"
    using strip_zeros_pow [OF c0, of "nat ?shift" "- 8"] shift(2) by simp
  have fixed: "dec_fix (n < 0) ?c (- 8) = Inr (Finite (n < 0) ?c (- 8))"
    using nd c0 by (intro dec_fix_exact) (simp_all add: prec_def Etiny_def Emin_def Etop_def Emax_def)
  have "dec_div (Finite (n < 0) ?c 0) (Finite False 1 8) =
          (case strip_zeros (?c * 10 ^ nat ?shift) (0 - 8 - ?shift) (0 - 8) of
             (coeff', expo') \<Rightarrow> dec_fix (n < 0) coeff' expo')"
    using c0 shift(2) by (simp add: Let_def)
  also have "\<dots> = Inr (Finite (n < 0) ?c (- 8))"
    unfolding strip by (simp add: fixed)
  finally show ?thesis by (simp add: decimal_of_int_def one_e8_def)
qed










section \<open>The unset client and RPC failures\<close>

text \<open>
  C10: with \<open>node_client\<close> unset, \<open>calculate_unspent_balance\<close> and
  \<open>create_raw_transaction\<close> return \<open>None\<close> and make no RPC call, whatever their
  arguments.
\<close>

theorem no_client_no_rpc:
  "calculate_unspent_balance float_of None target_address = (None, [])
   \<and> create_raw_transaction None inputs_list outputs_dict = (Inr None, [])"
  by (simp add: calculate_unspent_balance_def create_raw_transaction_def)

text \<open>
  What does hold: a \<open>JSONRPCException\<close> of the call becomes \<open>None\<close> or the empty list
  in each of the four operations of the transaction builder.
\<close>

lemma jsonrpc_exception_caught:
  "createrawtransaction n ins outs = Inl JSONRPCException \<Longrightarrow>
     fst (create_raw_transaction (Some n) ins outs) = Inr None"
  "signrawtransactionwithwallet n raw = Inl JSONRPCException \<Longrightarrow>
     fst (sign_transaction (Some n) raw) = Inr None"
  "sendrawtransaction n signed = Inl JSONRPCException \<Longrightarrow>
     fst (broadcast_transaction (Some n) signed) = Inr None"
  "listunspent n lo hi None = Inl JSONRPCException \<Longrightarrow>
     fst (get_unspent_outputs (Some n) lo hi None) = Inr []"
  by (simp_all add: create_raw_transaction_def sign_transaction_def broadcast_transaction_def
        get_unspent_outputs_def)

text \<open>
  C8 at a failing input: when the call fails with an exception that is not a
  \<open>JSONRPCException\<close>, the four operations of the transaction builder let it escape.
\<close>

theorem transport_error_escapes:
  "create_raw_transaction (Some dropped_node) [] [] =
     (Inl TransportError, [CreateRawTransaction [] []])
   \<and> sign_transaction (Some dropped_node) ''0200'' =
     (Inl TransportError, [SignRawTransactionWithWallet ''0200''])
   \<and> broadcast_transaction (Some dropped_node) ''0200ff'' =
     (Inl TransportError, [SendRawTransaction ''0200ff''])
   \<and> get_unspent_outputs (Some dropped_node) 1 9999999 None =
     (Inl TransportError, [ListUnspent 1 9999999 None])"
  by code_simp

section \<open>Transaction assembly sequencing\<close>

lemma create_raw_trace:
  "snd (create_raw_transaction (Some n) ins outs) = [CreateRawTransaction ins outs]"
  by (simp add: create_raw_transaction_def split: sum.splits exn.splits)

lemma create_raw_result:
  "fst (create_raw_transaction (Some n) ins outs) = Inr (Some raw) \<longleftrightarrow>
     createrawtransaction n ins outs = Inr raw"
  by (auto simp: create_raw_transaction_def split: sum.splits exn.splits)

lemma sign_trace:
  "snd (sign_transaction (Some n) raw) = [SignRawTransactionWithWallet raw]"
  by (simp add: sign_transaction_def split: sum.splits exn.splits)

lemma sign_result:
  "fst (sign_transaction (Some n) raw) = Inr (Some signed) \<longleftrightarrow>
     signrawtransactionwithwallet n raw = Inr signed"
  by (auto simp: sign_transaction_def split: sum.splits exn.splits)

lemma broadcast_trace:
  "snd (broadcast_transaction (Some n) h) = [SendRawTransaction h]"
  by (simp add: broadcast_transaction_def split: sum.splits exn.splits)

lemma submit_trace:
  "ordered_submission n (snd (submit_transaction (Some n) ins outs))"
proof -
  obtain r1 t1 where c: "create_raw_transaction (Some n) ins outs = (r1, t1)"
    by (cases "create_raw_transaction (Some n) ins outs")
  from c create_raw_trace [of n ins outs] have t1: "t1 = [CreateRawTransaction ins outs]" by simp
  from c create_raw_result [of n ins outs] have r1:
    "\<And>raw. r1 = Inr (Some raw) \<longleftrightarrow> createrawtransaction n ins outs = Inr raw" by simp
  show ?thesis
  proof (cases "\<exists>raw. r1 = Inr (Some raw) \<and> raw \<noteq> []")
    case False
    then have "snd (submit_transaction (Some n) ins outs) = t1"
      using c by (auto simp: submit_transaction_def split: sum.splits option.splits)
    moreover from False r1 have "\<forall>raw. createrawtransaction n ins outs = Inr raw \<longrightarrow> raw = []"
      by auto
    ultimately show ?thesis
      unfolding ordered_submission_def t1 by blast
  next
    case True
    then obtain raw where raw: "r1 = Inr (Some raw)" "raw \<noteq> []" by blast
    from r1 [of raw] raw(1) have craw: "createrawtransaction n ins outs = Inr raw" by blast
    obtain r2 t2 where s: "sign_transaction (Some n) raw = (r2, t2)"
      by (cases "sign_transaction (Some n) raw")
    from s sign_trace [of n raw] have t2: "t2 = [SignRawTransactionWithWallet raw]" by simp
    from s sign_result [of n raw] have r2:
      "\<And>signed. r2 = Inr (Some signed) \<longleftrightarrow> signrawtransactionwithwallet n raw = Inr signed"
      by simp
    show ?thesis
    proof (cases "\<exists>signed. r2 = Inr (Some signed) \<and> complete signed")
      case False
      then have "snd (submit_transaction (Some n) ins outs) = t1 @ t2"
        using c raw s by (auto simp: submit_transaction_def split: sum.splits option.splits)
      moreover from False r2
      have "\<forall>signed. signrawtransactionwithwallet n raw = Inr signed \<longrightarrow> \<not> complete signed"
        by auto
      ultimately show ?thesis
        unfolding ordered_submission_def t1 t2 using craw raw(2) by auto
    next
      case True
      then obtain signed where signed: "r2 = Inr (Some signed)" "complete signed" by blast
      from r2 [of signed] signed(1) have ssigned: "signrawtransactionwithwallet n raw = Inr signed"
        by blast
      obtain r3 t3 where b: "broadcast_transaction (Some n) (hex signed) = (r3, t3)"
        by (cases "broadcast_transaction (Some n) (hex signed)")
      from b broadcast_trace [of n "hex signed"] have t3: "t3 = [SendRawTransaction (hex signed)]"
        by simp
      have "snd (submit_transaction (Some n) ins outs) = t1 @ t2 @ t3"
        using c raw s signed b
        by (auto simp: submit_transaction_def split: sum.splits option.splits)
      then show ?thesis
        unfolding ordered_submission_def t1 t2 t3 using craw raw(2) ssigned signed(2) by auto
    qed
  qed
qed


lemma submit_only:
  "submit_calls (snd (submit_transaction (Some n) ins outs)) =
     snd (submit_transaction (Some n) ins outs)"
  using submit_trace [of n ins outs]
  unfolding ordered_submission_def submit_calls_def by auto

lemma connect_trace:
  "connect_to_node world = (fst (connect_to_node world), Some world, [GetBlockchainInfo])"
  by (simp add: connect_to_node_def split: sum.splits)

lemma get_unspent_trace:
  "snd (get_unspent_outputs (Some n) lo hi None) = [ListUnspent lo hi None]"
  by (simp add: get_unspent_outputs_def split: sum.splits exn.splits)

lemma build_outputs_trace:
  "submit_calls (snd (build_outputs (Some n) change)) = []"
  by (simp add: build_outputs_def submit_calls_def Let_def split: sum.splits list.splits)

lemma flow_trace:
  "\<exists>pre. submit_calls pre = []
     \<and> (snd (create_and_send_transaction world) = pre
        \<or> (\<exists>ins outs. snd (create_and_send_transaction world) =
              pre @ snd (submit_transaction (Some world) ins outs)))"
proof -
  obtain r1 t1 where g: "get_unspent_outputs (Some world) 1 9999999 None = (r1, t1)"
    by (cases "get_unspent_outputs (Some world) 1 9999999 None")
  from g get_unspent_trace [of world 1 9999999] have t1: "t1 = [ListUnspent 1 9999999 None]"
    by simp
  have p1: "submit_calls [GetBlockchainInfo] = []"
    "submit_calls ([GetBlockchainInfo] @ t1) = []"
    by (simp_all add: submit_calls_def t1)
  have p2: "submit_calls ([GetBlockchainInfo] @ t1 @ snd (build_outputs (Some world) change)) = []"
    for change
    using build_outputs_trace [of world change] by (simp add: submit_calls_def t1)
  obtain res tr where f: "create_and_send_transaction world = (res, tr)"
    by (cases "create_and_send_transaction world")
  have shapes: "tr = [GetBlockchainInfo] \<or> tr = [GetBlockchainInfo] @ t1
      \<or> (\<exists>change r2 t2. build_outputs (Some world) change = (r2, t2)
            \<and> (tr = [GetBlockchainInfo] @ t1 @ t2
               \<or> (\<exists>ins outs r3 t3. submit_transaction (Some world) ins outs = (r3, t3)
                     \<and> tr = [GetBlockchainInfo] @ t1 @ t2 @ t3)))"
    using f g unfolding create_and_send_transaction_def
    by (subst (asm) connect_trace)
       (simp add: Let_def split: sum.splits prod.splits option.splits if_splits; blast)
  have p3: "submit_calls ([GetBlockchainInfo] @ t1 @ t2) = []"
    if "build_outputs (Some world) change = (r2, t2)" for change r2 t2
    using build_outputs_trace [of world change] that by (simp add: submit_calls_def t1)
  from shapes consider
      "tr = [GetBlockchainInfo]" | "tr = [GetBlockchainInfo] @ t1"
    | change r2 t2 where "build_outputs (Some world) change = (r2, t2)"
        "tr = [GetBlockchainInfo] @ t1 @ t2"
    | change r2 t2 ins outs r3 t3 where "build_outputs (Some world) change = (r2, t2)"
        "submit_transaction (Some world) ins outs = (r3, t3)"
        "tr = [GetBlockchainInfo] @ t1 @ t2 @ t3"
    by blast
  then show ?thesis
  proof cases
    case 1
    with p1(1) f show ?thesis by auto
  next
    case 2
    with p1(2) f show ?thesis by auto
  next
    case 3
    from p3 [OF 3(1)] 3(2) f show ?thesis by auto
  next
    case 4
    have "tr = ([GetBlockchainInfo] @ t1 @ t2) @ snd (submit_transaction (Some world) ins outs)"
      using 4(2,3) by simp
    with p3 [OF 4(1)] f show ?thesis by fastforce
  qed
qed

lemma amount_sats: "to_sats AMOUNT_BTC = Inr 100000"
proof -
  have nd: "ndigits 1000000000000000020816681711721685132943093776702880859375 = 58"
    "ndigits 1000000000000000020816681712 = 28"
    by (simp_all add: ndigits.simps)
  show ?thesis
    by (simp add: to_sats_def AMOUNT_BTC_def one_e8_def dec_fix_def Let_def nd
          round_half_even_def prec_def Etop_def Etiny_def Emin_def Emax_def)
qed

lemma ex_selection:
  "select_inputs_for_amount AMOUNT_BTC ex_outputs =
     Inr ([\<lparr>input_txid = ''bb'', input_vout = 1\<rparr>], 50000000, 49900000)"
proof -
  have s2: "to_sats (Finite False 5 (- 1)) = Inr 50000000" by code_simp
  show ?thesis
    by (simp add: select_inputs_for_amount_def amount_sats sorted_reverse_def ex_outputs_def
          s2 input_of_def)
qed

lemma ex_build:
  "build_outputs (Some ex_node) 49899708 =
     (Some [(RECIPIENT_ADDRESS, AMOUNT_BTC), (''change1'', Finite False 49899708 (- 8))],
      [ListReceivedByAddress 0 True])"
proof -
  have "dec_div (decimal_of_int 49899708) one_e8 =
          Inr (Finite (49899708 < (0::int)) (nat \<bar>49899708\<bar>) (- 8))"
    by (rule dec_div_int_one_e8) simp
  then have q: "dec_div (decimal_of_int 49899708) one_e8 = Inr (Finite False 49899708 (- 8))"
    by simp
  show ?thesis
    by (simp add: build_outputs_def ex_node_def q RECIPIENT_ADDRESS_def)
qed

lemma ex_flow:
  "snd (create_and_send_transaction ex_node) =
     [GetBlockchainInfo, ListUnspent 1 9999999 None, ListReceivedByAddress 0 True,
      CreateRawTransaction [\<lparr>input_txid = ''bb'', input_vout = 1\<rparr>]
        [(RECIPIENT_ADDRESS, AMOUNT_BTC), (''change1'', Finite False 49899708 (- 8))],
      SignRawTransactionWithWallet ''0200'',
      SendRawTransaction ''0200ff'']"
proof -
  have c: "connect_to_node ex_node = (True, Some ex_node, [GetBlockchainInfo])"
    by (simp add: connect_to_node_def ex_node_def)
  have g: "get_unspent_outputs (Some ex_node) 1 9999999 None =
             (Inr ex_outputs, [ListUnspent 1 9999999 None])"
    by (simp add: get_unspent_outputs_def ex_node_def)
  have ne: "ex_outputs \<noteq> []" by (simp add: ex_outputs_def)
  have fee: "calculate_transaction_fee (estimate_transaction_size 1 2 True) FEE_RATE = 292"
    by (simp add: calculate_transaction_fee_def estimate_transaction_size_def FEE_RATE_def)
  have sub: "submit_transaction (Some ex_node) [\<lparr>input_txid = ''bb'', input_vout = 1\<rparr>]
        [(RECIPIENT_ADDRESS, AMOUNT_BTC), (''change1'', Finite False 49899708 (- 8))] =
      (Inr (Some ''txhash''),
       [CreateRawTransaction [\<lparr>input_txid = ''bb'', input_vout = 1\<rparr>]
          [(RECIPIENT_ADDRESS, AMOUNT_BTC), (''change1'', Finite False 49899708 (- 8))],
        SignRawTransactionWithWallet ''0200'',
        SendRawTransaction ''0200ff''])"
    by (simp add: submit_transaction_def create_raw_transaction_def sign_transaction_def
          broadcast_transaction_def ex_node_def)
  show ?thesis
    by (simp add: create_and_send_transaction_def c g ne ex_selection fee amount_sats
          ex_build sub)
qed

text \<open>
  C7: in every run of \<open>create_and_send_transaction\<close> the calls of the submission steps
  come last in the trace and form one of four lists: none; a single creation whose result
  was an error or empty; a creation that returned a raw transaction, followed by one
  signing of it that failed or was not complete; or creation, then signing with
  \<open>complete\<close> true, then one broadcast of the signed hex.  So the broadcast happens only
  after a successful creation and a complete signing, every failure ends the sequence,
  and no step is repeated.
\<close>

theorem submission_steps_in_order:
  assumes "submit_calls (snd (create_and_send_transaction world)) = calls"
  shows "(\<exists>pre. snd (create_and_send_transaction world) = pre @ calls \<and> submit_calls pre = [])
    \<and> (calls = []
       \<or> (\<exists>ins outs. calls = [CreateRawTransaction ins outs]
             \<and> (\<forall>raw. createrawtransaction world ins outs = Inr raw \<longrightarrow> raw = []))
       \<or> (\<exists>ins outs raw.
             calls = [CreateRawTransaction ins outs, SignRawTransactionWithWallet raw]
             \<and> createrawtransaction world ins outs = Inr raw \<and> raw \<noteq> []
             \<and> (\<forall>signed. signrawtransactionwithwallet world raw = Inr signed \<longrightarrow>
                   \<not> complete signed))
       \<or> (\<exists>ins outs raw signed.
             calls = [CreateRawTransaction ins outs, SignRawTransactionWithWallet raw,
                      SendRawTransaction (hex signed)]
             \<and> createrawtransaction world ins outs = Inr raw \<and> raw \<noteq> []
             \<and> signrawtransactionwithwallet world raw = Inr signed \<and> complete signed))"
proof -
  let ?tr = "snd (create_and_send_transaction world)"
  from flow_trace [of world] obtain pre where pre: "submit_calls pre = []"
    and shape: "?tr = pre \<or> (\<exists>ins outs. ?tr = pre @ snd (submit_transaction (Some world) ins outs))"
    by blast
  from shape show ?thesis
  proof
    assume tr: "?tr = pre"
    with pre assms have "calls = []" by simp
    with tr pre show ?thesis by simp
  next
    assume "\<exists>ins outs. ?tr = pre @ snd (submit_transaction (Some world) ins outs)"
    then obtain ins outs where tr: "?tr = pre @ snd (submit_transaction (Some world) ins outs)"
      by blast
    have "submit_calls ?tr = submit_calls pre @ submit_calls (snd (submit_transaction (Some world) ins outs))"
      unfolding tr by (simp add: submit_calls_def)
    with pre assms have calls: "calls = snd (submit_transaction (Some world) ins outs)"
      by (simp add: submit_only)
    have "ordered_submission world calls"
      unfolding calls by (rule submit_trace)
    moreover have "\<exists>pre. ?tr = pre @ calls \<and> submit_calls pre = []"
      using tr pre calls by blast
    ultimately show ?thesis
      unfolding ordered_submission_def by blast
  qed
qed

theorem submission_steps_in_order_witness:
  "submit_calls (snd (create_and_send_transaction ex_node)) = ex_calls
   \<and> ((\<exists>pre. snd (create_and_send_transaction ex_node) = pre @ ex_calls \<and> submit_calls pre = [])
    \<and> (ex_calls = []
       \<or> (\<exists>ins outs. ex_calls = [CreateRawTransaction ins outs]
             \<and> (\<forall>raw. createrawtransaction ex_node ins outs = Inr raw \<longrightarrow> raw = []))
       \<or> (\<exists>ins outs raw.
             ex_calls = [CreateRawTransaction ins outs, SignRawTransactionWithWallet raw]
             \<and> createrawtransaction ex_node ins outs = Inr raw \<and> raw \<noteq> []
             \<and> (\<forall>signed. signrawtransactionwithwallet ex_node raw = Inr signed \<longrightarrow>
                   \<not> complete signed))
       \<or> (\<exists>ins outs raw signed.
             ex_calls = [CreateRawTransaction ins outs, SignRawTransactionWithWallet raw,
                      SendRawTransaction (hex signed)]
             \<and> createrawtransaction ex_node ins outs = Inr raw \<and> raw \<noteq> []
             \<and> signrawtransactionwithwallet ex_node raw = Inr signed \<and> complete signed)))"
proof -
  have h: "submit_calls (snd (create_and_send_transaction ex_node)) = ex_calls"
    by (simp add: ex_flow submit_calls_def ex_calls_def)
  show ?thesis
    by (rule conjI [OF h submission_steps_in_order [OF h]])
qed

end
